theory Spec2Isabelle
  imports Main "HOL-Library.Sublist"
begin

section \<open>Data model: requests, responses, named stores\<close>

text \<open>
  A request is identified by the path and the query string of its URL (the origin is
  fixed: the worker only sees requests of its own scope, served from the origin root).
  The classification of \<^verbatim>\<open>service-worker.js\<close> reads \<^verbatim>\<open>url.pathname\<close>; the
  store matches on the whole request.
\<close>

record request =
  pathname :: string
  search :: string

text \<open>
  A response carries a status, a body and the field values of its \<^verbatim>\<open>Vary\<close> header
  (none when it has no such header). \<^verbatim>\<open>Response.error()\<close> is the response of type
  error, with status 0 and no body.
\<close>

datatype response_type = Basic | NetError

record response =
  rtype :: response_type
  status :: nat
  body :: string
  vary :: "string list"

definition Response_error :: response where
  "Response_error = \<lparr>rtype = NetError, status = 0, body = [], vary = []\<rparr>"

text \<open>\<^verbatim>\<open>response.ok\<close>: a status in the range 200 to 299.\<close>

definition ok :: "response \<Rightarrow> bool" where
  "ok resp = (200 \<le> status resp \<and> status resp \<le> 299)"

text \<open>
  What the store takes: \<^verbatim>\<open>cache.put\<close>, \<^verbatim>\<open>add\<close> and \<^verbatim>\<open>addAll\<close> reject a partial
  response (status 206) and a response whose \<^verbatim>\<open>Vary\<close> header is \<^verbatim>\<open>*\<close>.
\<close>

definition storable :: "response \<Rightarrow> bool" where
  "storable resp = (status resp \<noteq> 206 \<and> ''*'' \<notin> set (vary resp))"

text \<open>
  A cache is a list of entries, one request with its response each; the cache storage
  (\<^verbatim>\<open>caches\<close>) is the list of named caches, in creation order.
\<close>

type_synonym cache = "(request \<times> response) list"
type_synonym cache_storage = "(string \<times> cache) list"

text \<open>Why a promise rejects.\<close>

datatype failure =
  FetchRejected    \<comment> \<open>\<^verbatim>\<open>fetch\<close> rejects: network unreachable, timeout\<close>
| BadResponse      \<comment> \<open>\<^verbatim>\<open>cache.add\<close> / \<^verbatim>\<open>addAll\<close> reject the response they fetched\<close>
| StoreRejected    \<comment> \<open>a store operation rejects: read or write error, quota\<close>

text \<open>
  The platform one handler invocation runs against: what the network answers to a
  request, whether the store operations reject (\<open>put_fails\<close>: a write error, the quota
  exceeded), and whether the worker controls the page, which it does once it has
  activated and called \<^verbatim>\<open>clients.claim()\<close>.
\<close>

record platform =
  net :: "request \<Rightarrow> failure + response"
  open_fails :: bool
  match_fails :: bool
  put_fails :: bool
  delete_fails :: bool
  controlled :: bool

text \<open>
  The state both components share: the cache storage, and the log of the requests that
  went to the network.
\<close>

record world =
  caches :: cache_storage
  fetched :: "request list"

section \<open>Store primitives\<close>

text \<open>\<^verbatim>\<open>caches.open(name)\<close> creates the cache when there is none of that name.\<close>

definition caches_open :: "string \<Rightarrow> cache_storage \<Rightarrow> cache_storage" where
  "caches_open name cs = (if map_of cs name = None then cs @ [(name, [])] else cs)"

text \<open>The entries of the cache of a name (none when there is no such cache).\<close>

definition entries :: "cache_storage \<Rightarrow> string \<Rightarrow> cache" where
  "entries cs name = (case map_of cs name of None \<Rightarrow> [] | Some c \<Rightarrow> c)"

definition cache_match :: "cache \<Rightarrow> request \<Rightarrow> response option" where
  "cache_match c r = map_of c r"

text \<open>\<^verbatim>\<open>cache.put\<close> removes the entries that match the request and appends the new one.\<close>

definition cache_put :: "request \<Rightarrow> response \<Rightarrow> cache \<Rightarrow> cache" where
  "cache_put r resp c = filter (\<lambda>e. fst e \<noteq> r) c @ [(r, resp)]"

definition cache_delete :: "request \<Rightarrow> cache \<Rightarrow> cache" where
  "cache_delete r c = filter (\<lambda>e. fst e \<noteq> r) c"

text \<open>Running an operation on the cache of a name, inside the storage.\<close>

definition with_cache :: "string \<Rightarrow> (cache \<Rightarrow> cache) \<Rightarrow> cache_storage \<Rightarrow> cache_storage" where
  "with_cache name f cs = map (\<lambda>nc. if fst nc = name then (fst nc, f (snd nc)) else nc) cs"

text \<open>\<^verbatim>\<open>caches.match(request)\<close>: the first match, going through the caches in order.\<close>

fun caches_match :: "cache_storage \<Rightarrow> request \<Rightarrow> response option" where
  "caches_match [] r = None"
| "caches_match (nc # cs) r =
     (case cache_match (snd nc) r of Some resp \<Rightarrow> Some resp | None \<Rightarrow> caches_match cs r)"

definition caches_keys :: "cache_storage \<Rightarrow> string list" where
  "caches_keys cs = map fst cs"

definition caches_delete :: "string \<Rightarrow> cache_storage \<Rightarrow> cache_storage" where
  "caches_delete name cs = filter (\<lambda>nc. fst nc \<noteq> name) cs"

text \<open>\<^verbatim>\<open>fetch(request)\<close>: the request goes to the network, which resolves or rejects.\<close>

definition do_fetch :: "platform \<Rightarrow> request \<Rightarrow> world \<Rightarrow> (failure + response) \<times> world" where
  "do_fetch p r w = (net p r, w\<lparr>fetched := fetched w @ [r]\<rparr>)"

section \<open>The service worker\<close>

definition CACHE_NAME :: string where
  "CACHE_NAME = ''calmstart-shell-v3''"

text \<open>The name of the audio cache, the literal both files open.\<close>

definition AUDIO_CACHE :: string where
  "AUDIO_CACHE = ''calmstart-audio-v1''"

definition SHELL_ASSETS :: "string list" where
  "SHELL_ASSETS =
    [''./'', ''./index.html'', ''./app.html'', ''./styles.css'', ''./app.js'',
     ''./manifest.webmanifest'', ''./privacy.html'', ''./sessions.json'',
     ''./assets/icon-192.png'', ''./assets/icon-512.png'']"

text \<open>\<^verbatim>\<open>String.prototype.includes\<close> and \<^verbatim>\<open>startsWith\<close>.\<close>

fun str_includes :: "string \<Rightarrow> string \<Rightarrow> bool" where
  "str_includes [] needle = (needle = [])"
| "str_includes (c # cs) needle = (prefix needle (c # cs) \<or> str_includes cs needle)"

definition startsWith :: "string \<Rightarrow> string \<Rightarrow> bool" where
  "startsWith s pre = prefix pre s"

subsection \<open>The fetch handler\<close>

definition is_shell :: "request \<Rightarrow> bool" where
  "is_shell r = (pathname r \<in> set SHELL_ASSETS \<or> (CHR ''.'' # pathname r) \<in> set SHELL_ASSETS)"

definition is_audio :: "request \<Rightarrow> bool" where
  "is_audio r = str_includes (pathname r) ''/audio/''"

text \<open>
  Shell: \<^verbatim>\<open>caches.match(event.request).then(resp => resp || fetch(event.request))\<close>.
\<close>

definition fetch_shell :: "platform \<Rightarrow> request \<Rightarrow> world \<Rightarrow> (failure + response) \<times> world" where
  "fetch_shell p r w =
     (if match_fails p then (Inl StoreRejected, w)
      else (case caches_match (caches w) r of
              Some resp \<Rightarrow> (Inr resp, w)
            | None \<Rightarrow> do_fetch p r w))"

text \<open>
  Audio: open the audio cache, return a match; otherwise fetch, put a clone into the
  cache and return the response. The \<^verbatim>\<open>put\<close> is not awaited: when it rejects, because
  the store does not take the response or the write fails, the response is returned all
  the same and nothing is written.
\<close>

definition fetch_audio :: "platform \<Rightarrow> request \<Rightarrow> world \<Rightarrow> (failure + response) \<times> world" where
  "fetch_audio p r w =
     (if open_fails p then (Inl StoreRejected, w)
      else let w1 = w\<lparr>caches := caches_open AUDIO_CACHE (caches w)\<rparr> in
        if match_fails p then (Inl StoreRejected, w1)
        else (case cache_match (entries (caches w1) AUDIO_CACHE) r of
                Some cached \<Rightarrow> (Inr cached, w1)
              | None \<Rightarrow>
                 (case do_fetch p r w1 of
                    (Inl e, w2) \<Rightarrow> (Inl e, w2)
                  | (Inr resp, w2) \<Rightarrow>
                      (Inr resp,
                       if \<not> storable resp \<or> put_fails p then w2
                       else w2\<lparr>caches := with_cache AUDIO_CACHE (cache_put r resp) (caches w2)\<rparr>))))"

text \<open>
  Default: the network first; in the \<^verbatim>\<open>catch\<close>, a match of any cache, or
  \<^verbatim>\<open>Response.error()\<close>.
\<close>

definition fetch_default :: "platform \<Rightarrow> request \<Rightarrow> world \<Rightarrow> (failure + response) \<times> world" where
  "fetch_default p r w =
     (case do_fetch p r w of
        (Inr resp, w1) \<Rightarrow> (Inr resp, w1)
      | (Inl e, w1) \<Rightarrow>
          (if match_fails p then (Inl StoreRejected, w1)
           else (case caches_match (caches w1) r of
                   Some cached \<Rightarrow> (Inr cached, w1)
                 | None \<Rightarrow> (Inr Response_error, w1))))"

text \<open>
  The handler: the promise given to \<^verbatim>\<open>event.respondWith\<close> (\<open>Inl\<close> when it rejects)
  and the state once the handler's store operations have settled.
\<close>

definition fetch_handler :: "platform \<Rightarrow> request \<Rightarrow> world \<Rightarrow> (failure + response) \<times> world" where
  "fetch_handler p r w =
     (if is_shell r then fetch_shell p r w
      else if is_audio r then fetch_audio p r w
      else fetch_default p r w)"

subsection \<open>The activate handler\<close>

text \<open>
  \<^verbatim>\<open>caches.keys()\<close>, then for every key that is neither \<^verbatim>\<open>CACHE_NAME\<close> nor starts
  with \<^verbatim>\<open>calmstart-audio\<close>, \<^verbatim>\<open>caches.delete(k)\<close>.
\<close>

definition reap :: "cache_storage \<Rightarrow> string \<Rightarrow> cache_storage" where
  "reap cs k =
     (if k \<noteq> CACHE_NAME \<and> \<not> startsWith k ''calmstart-audio'' then caches_delete k cs else cs)"

definition activate :: "world \<Rightarrow> world" where
  "activate w = w\<lparr>caches := foldl reap (caches w) (caches_keys (caches w))\<rparr>"

subsection \<open>The install handler\<close>

text \<open>
  The request of a shell asset: its URL is resolved against the worker's own, at the
  root of the origin, so \<^verbatim>\<open>./index.html\<close> is the path \<^verbatim>\<open>/index.html\<close>.
\<close>

definition asset_request :: "string \<Rightarrow> request" where
  "asset_request a = \<lparr>pathname = drop 1 a, search = []\<rparr>"

text \<open>
  \<^verbatim>\<open>cache.addAll\<close> fetches every request and rejects when one fetch rejects or one
  response is not ok or not one the store takes; only when all are there does it write
  them, in one batch. The worker's own fetches go to the network.
\<close>

fun fetch_all :: "platform \<Rightarrow> request list \<Rightarrow> failure + (request \<times> response) list" where
  "fetch_all p [] = Inr []"
| "fetch_all p (r # rs) =
     (case net p r of
        Inl e \<Rightarrow> Inl e
      | Inr resp \<Rightarrow>
          if \<not> ok resp \<or> \<not> storable resp then Inl BadResponse
          else (case fetch_all p rs of
                  Inl e \<Rightarrow> Inl e
                | Inr got \<Rightarrow> Inr ((r, resp) # got)))"

text \<open>
  A retrieval that \<^verbatim>\<open>addAll\<close> accepts: the fetch resolves, the response is ok and the
  store takes it.
\<close>

definition retrieved :: "platform \<Rightarrow> request \<Rightarrow> bool" where
  "retrieved p r = (case net p r of Inl e \<Rightarrow> False | Inr resp \<Rightarrow> ok resp \<and> storable resp)"

definition put_all :: "(request \<times> response) list \<Rightarrow> cache \<Rightarrow> cache" where
  "put_all got c = foldl (\<lambda>c' e. cache_put (fst e) (snd e) c') c got"

definition cache_addAll ::
  "platform \<Rightarrow> string \<Rightarrow> request list \<Rightarrow> world \<Rightarrow> (failure + unit) \<times> world" where
  "cache_addAll p name rs w =
     (let w1 = w\<lparr>fetched := fetched w @ rs\<rparr> in
      case fetch_all p rs of
        Inl e \<Rightarrow> (Inl e, w1)
      | Inr got \<Rightarrow>
          if put_fails p then (Inl StoreRejected, w1)
          else (Inr (), w1\<lparr>caches := with_cache name (put_all got) (caches w1)\<rparr>))"

text \<open>
  The promise given to \<^verbatim>\<open>event.waitUntil\<close>:
  \<^verbatim>\<open>caches.open(CACHE_NAME).then(cache => cache.addAll(SHELL_ASSETS))\<close>.
\<close>

definition install :: "platform \<Rightarrow> world \<Rightarrow> (failure + unit) \<times> world" where
  "install p w =
     (if open_fails p then (Inl StoreRejected, w)
      else cache_addAll p CACHE_NAME (map asset_request SHELL_ASSETS)
             (w\<lparr>caches := caches_open CACHE_NAME (caches w)\<rparr>))"

text \<open>
  The life cycle the browser runs a new worker through. A worker whose install promise
  rejects is discarded and the active worker stays; one whose install promise resolves
  becomes the active worker at once, since the handler calls \<^verbatim>\<open>self.skipWaiting()\<close>,
  and its activate handler runs. The active worker is named by its shell cache.
\<close>

definition update_worker ::
  "platform \<Rightarrow> string option \<times> world \<Rightarrow> string option \<times> world" where
  "update_worker p aw =
     (case install p (snd aw) of
        (Inl e, w') \<Rightarrow> (fst aw, w')
      | (Inr u, w') \<Rightarrow> (Some CACHE_NAME, activate w'))"

section \<open>The page: \<^verbatim>\<open>app.js\<close>\<close>

text \<open>The body of the \<^verbatim>\<open>try\<close> of \<^verbatim>\<open>isSessionCached\<close>, and the function with its \<^verbatim>\<open>catch\<close>.\<close>

definition isSessionCached_try :: "platform \<Rightarrow> request \<Rightarrow> world \<Rightarrow> (failure + bool) \<times> world" where
  "isSessionCached_try p fileUrl w =
     (if open_fails p then (Inl StoreRejected, w)
      else let w1 = w\<lparr>caches := caches_open AUDIO_CACHE (caches w)\<rparr> in
        if match_fails p then (Inl StoreRejected, w1)
        else (Inr (cache_match (entries (caches w1) AUDIO_CACHE) fileUrl \<noteq> None), w1))"

definition isSessionCached :: "platform \<Rightarrow> request \<Rightarrow> world \<Rightarrow> bool \<times> world" where
  "isSessionCached p fileUrl w =
     (case isSessionCached_try p fileUrl w of
        (Inl e, w') \<Rightarrow> (False, w')
      | (Inr b, w') \<Rightarrow> (b, w'))"

text \<open>
  A fetch the page makes. When the worker controls the page, the request is a fetch
  event and the page gets what the worker's handler responds with; a handler promise
  that rejects and a response of type error both reach the page as a network error, a
  rejected fetch. When no worker controls the page, the request goes to the network.
\<close>

definition page_fetch :: "platform \<Rightarrow> request \<Rightarrow> world \<Rightarrow> (failure + response) \<times> world" where
  "page_fetch p r w =
     (if controlled p then
        (case fetch_handler p r w of
           (Inl e, w1) \<Rightarrow> (Inl FetchRejected, w1)
         | (Inr resp, w1) \<Rightarrow>
             if rtype resp = NetError then (Inl FetchRejected, w1) else (Inr resp, w1))
      else do_fetch p r w)"

text \<open>
  \<^verbatim>\<open>cache.add(url)\<close> on the audio cache, called by the page: fetch, reject a response
  that is not ok or that the store does not take, put.
\<close>

definition cache_add :: "platform \<Rightarrow> request \<Rightarrow> world \<Rightarrow> (failure + unit) \<times> world" where
  "cache_add p r w =
     (case page_fetch p r w of
        (Inl e, w1) \<Rightarrow> (Inl e, w1)
      | (Inr resp, w1) \<Rightarrow>
          if \<not> ok resp \<or> \<not> storable resp then (Inl BadResponse, w1)
          else if put_fails p then (Inl StoreRejected, w1)
          else (Inr (), w1\<lparr>caches := with_cache AUDIO_CACHE (cache_put r resp) (caches w1)\<rparr>))"

definition cache_delete_audio :: "platform \<Rightarrow> request \<Rightarrow> world \<Rightarrow> (failure + unit) \<times> world" where
  "cache_delete_audio p r w =
     (if delete_fails p then (Inl StoreRejected, w)
      else (Inr (), w\<lparr>caches := with_cache AUDIO_CACHE (cache_delete r) (caches w)\<rparr>))"

text \<open>
  The change handler of the offline toggle. \<open>current\<close> is the file of the session that
  is selected, if one is; \<open>checked\<close> the state of the box. The handler ends in one of
  three ways: the box is reset (no session), the list is rendered again, or the
  \<^verbatim>\<open>catch\<close> shows the error toast. Rendering reads the store and writes the page only.
\<close>

datatype toggle_outcome = Unchecked | Rendered | ShowedError failure

definition offlineToggle_change ::
  "platform \<Rightarrow> request option \<Rightarrow> bool \<Rightarrow> world \<Rightarrow> toggle_outcome \<times> world" where
  "offlineToggle_change p current checked w =
     (case current of
        None \<Rightarrow> (Unchecked, w)
      | Some file \<Rightarrow>
          if open_fails p then (ShowedError StoreRejected, w)
          else let w1 = w\<lparr>caches := caches_open AUDIO_CACHE (caches w)\<rparr> in
            (case (if checked then cache_add p file w1 else cache_delete_audio p file w1) of
               (Inl e, w2) \<Rightarrow> (ShowedError e, w2)
             | (Inr u, w2) \<Rightarrow> (Rendered, w2)))"

text \<open>The two operations of the facade are the two positions of the toggle.\<close>

definition markOffline :: "platform \<Rightarrow> request \<Rightarrow> world \<Rightarrow> toggle_outcome \<times> world" where
  "markOffline p key w = offlineToggle_change p (Some key) True w"

definition unmarkOffline :: "platform \<Rightarrow> request \<Rightarrow> world \<Rightarrow> toggle_outcome \<times> world" where
  "unmarkOffline p key w = offlineToggle_change p (Some key) False w"

section \<open>Concrete platforms and states\<close>

definition net_down :: "request \<Rightarrow> failure + response" where
  "net_down r = Inl FetchRejected"

definition net_status :: "nat \<Rightarrow> request \<Rightarrow> failure + response" where
  "net_status n r = Inr \<lparr>rtype = Basic, status = n, body = ''bytes of '' @ pathname r, vary = []\<rparr>"

text \<open>A platform whose store works, on a given network, the worker controlling the page.\<close>

definition reliable :: "(request \<Rightarrow> failure + response) \<Rightarrow> platform" where
  "reliable n =
     \<lparr>net = n, open_fails = False, match_fails = False, put_fails = False, delete_fails = False,
      controlled = True\<rparr>"

definition rain :: request where
  "rain = \<lparr>pathname = ''/audio/rain.mp3'', search = []\<rparr>"

definition fresh :: world where
  "fresh = \<lparr>caches = [], fetched = []\<rparr>"

definition three_stores :: world where
  "three_stores =
     \<lparr>caches =
        [(''calmstart-shell-v2'',
            [(asset_request ''./app.js'', \<lparr>rtype = Basic, status = 200, body = ''old'', vary = []\<rparr>)]),
         (''calmstart-shell-v3'',
            [(asset_request ''./app.js'', \<lparr>rtype = Basic, status = 200, body = ''new'', vary = []\<rparr>)]),
         (''calmstart-audio-v1'',
            [(rain, \<lparr>rtype = Basic, status = 200, body = ''drops'', vary = []\<rparr>)])],
      fetched = []\<rparr>"

text \<open>A network on which one path is out of reach and every other one is served.\<close>

definition net_except :: "string \<Rightarrow> request \<Rightarrow> failure + response" where
  "net_except path r = (if pathname r = path then Inl FetchRejected else net_status 200 r)"

definition waves :: request where
  "waves = \<lparr>pathname = ''/audio/waves.mp3'', search = []\<rparr>"

text \<open>A request of the default class.\<close>

definition tips :: request where
  "tips = \<lparr>pathname = ''/api/tips'', search = ''?lang=en''\<rparr>"

section \<open>Auxiliary facts\<close>

lemma foldl_reap:
  "foldl reap cs ks =
     filter (\<lambda>nc. \<not> (fst nc \<in> set ks \<and> fst nc \<noteq> CACHE_NAME
                     \<and> \<not> startsWith (fst nc) ''calmstart-audio'')) cs"
proof (induction ks arbitrary: cs)
  case Nil
  show ?case by simp
next
  case (Cons k ks)
  show ?case
    unfolding foldl_Cons Cons.IH
    by (auto simp: reap_def caches_delete_def intro!: filter_cong)
qed

lemma map_of_filter_fst:
  "map_of (filter (\<lambda>nc. P (fst nc)) cs) k = (if P k then map_of cs k else None)"
  by (induction cs) auto

lemma entries_caches_open [simp]: "entries (caches_open n cs) m = entries cs m"
  by (auto simp: entries_def caches_open_def map_add_def split: option.splits)

lemma map_of_caches_open_same: "\<exists>c. map_of (caches_open n cs) n = Some c"
  by (auto simp: caches_open_def map_add_def split: option.splits)

lemma caches_open_idem [simp]: "caches_open n (caches_open n cs) = caches_open n cs"
  using map_of_caches_open_same [of n cs] by (auto simp: caches_open_def)

lemma map_of_with_cache:
  "map_of (with_cache n f cs) m = (if m = n then map_option f (map_of cs m) else map_of cs m)"
  by (induction cs) (auto simp: with_cache_def)

lemma entries_with_cache_other: "m \<noteq> n \<Longrightarrow> entries (with_cache n f cs) m = entries cs m"
  by (simp add: entries_def map_of_with_cache)

lemma entries_with_cache_same:
  "map_of cs n \<noteq> None \<Longrightarrow> entries (with_cache n f cs) n = f (entries cs n)"
  by (auto simp: entries_def map_of_with_cache)

lemma entries_with_cache_opened [simp]:
  "entries (with_cache n f (caches_open n cs)) n = f (entries cs n)"
  using entries_with_cache_same [where cs = "caches_open n cs" and n = n and f = f]
  using map_of_caches_open_same [of n cs] by auto

lemma caches_open_present: "map_of cs n \<noteq> None \<Longrightarrow> caches_open n cs = cs"
  by (simp add: caches_open_def)

lemma caches_open_with_cache [simp]:
  "caches_open n (with_cache m f (caches_open n cs)) = with_cache m f (caches_open n cs)"
  using map_of_caches_open_same [of n cs]
  by (intro caches_open_present) (auto simp: map_of_with_cache)

lemma with_cache_twice: "with_cache n f (with_cache n g cs) = with_cache n (\<lambda>c. f (g c)) cs"
  by (induction cs) (auto simp: with_cache_def)

lemma cache_match_put:
  "cache_match (cache_put r resp c) r' = (if r' = r then Some resp else cache_match c r')"
  using map_of_filter_fst [of "\<lambda>k. k \<noteq> r" c r']
  by (auto simp: cache_match_def cache_put_def map_add_def split: option.splits)

lemma cache_put_twice: "cache_put r resp (cache_put r resp c) = cache_put r resp c"
  by (simp add: cache_put_def)

lemma cache_put_count: "length (filter (\<lambda>e. fst e = r) (cache_put r resp c)) = 1"
  by (simp add: cache_put_def)

lemma audio_not_shell: "is_audio r \<Longrightarrow> \<not> is_shell r"
  by (auto simp: is_audio_def is_shell_def SHELL_ASSETS_def)

lemma entries_present: "cache_match (entries cs n) r = Some c \<Longrightarrow> caches_open n cs = cs"
  by (auto simp: entries_def cache_match_def caches_open_def split: option.splits)

lemma fetch_audio_hit:
  assumes "\<not> open_fails p" "\<not> match_fails p"
    and "cache_match (entries (caches w) AUDIO_CACHE) r = Some cached"
  shows "fetch_audio p r w = (Inr cached, w)"
  using assms entries_present [OF assms(3)]
  by (simp add: fetch_audio_def Let_def)

lemma fetch_audio_miss:
  assumes "\<not> open_fails p" "\<not> match_fails p"
    and "cache_match (entries (caches w) AUDIO_CACHE) r = None"
  shows "fetch_audio p r w =
    (case net p r of
       Inl e \<Rightarrow> (Inl e, w\<lparr>caches := caches_open AUDIO_CACHE (caches w), fetched := fetched w @ [r]\<rparr>)
     | Inr resp \<Rightarrow>
         (Inr resp,
          w\<lparr>caches := (if \<not> storable resp \<or> put_fails p then caches_open AUDIO_CACHE (caches w)
                        else with_cache AUDIO_CACHE (cache_put r resp)
                               (caches_open AUDIO_CACHE (caches w))),
            fetched := fetched w @ [r]\<rparr>))"
  using assms
  by (simp add: fetch_audio_def Let_def do_fetch_def split: sum.splits)

lemma fetch_all_resolves: "(\<exists>got. fetch_all p rs = Inr got) = list_all (retrieved p) rs"
proof (induction rs)
  case Nil
  show ?case by simp
next
  case (Cons r rs)
  have "(\<exists>got. fetch_all p (r # rs) = Inr got)
      = (retrieved p r \<and> (\<exists>got. fetch_all p rs = Inr got))"
    by (cases "net p r"; cases "fetch_all p rs") (auto simp: retrieved_def)
  then show ?case by (simp add: Cons.IH)
qed

lemma fetch_all_fails: "(\<exists>e. fetch_all p rs = Inl e) = (\<exists>r\<in>set rs. \<not> retrieved p r)"
proof -
  have "(\<exists>e. fetch_all p rs = Inl e) = (\<not> (\<exists>got. fetch_all p rs = Inr got))"
    by (cases "fetch_all p rs") simp_all
  then show ?thesis
    by (simp add: fetch_all_resolves list_all_iff)
qed

lemma fetch_all_got:
  "fetch_all p rs = Inr got \<Longrightarrow>
     map fst got = rs \<and> (\<forall>e\<in>set got. net p (fst e) = Inr (snd e) \<and> ok (snd e))"
  by (induction rs arbitrary: got) (auto split: sum.splits if_splits)

lemma cache_match_put_all:
  "cache_match (put_all got c) r =
     (case map_of (rev got) r of Some resp \<Rightarrow> Some resp | None \<Rightarrow> cache_match c r)"
proof (induction got arbitrary: c)
  case Nil
  show ?case by (simp add: put_all_def)
next
  case (Cons e got)
  have "put_all (e # got) c = put_all got (cache_put (fst e) (snd e) c)"
    by (simp add: put_all_def)
  then show ?case
    by (cases e) (auto simp: Cons.IH cache_match_put map_add_def split: option.splits)
qed

lemma put_all_present:
  assumes "fetch_all p rs = Inr got" and "r \<in> set rs"
  shows "\<exists>resp. cache_match (put_all got c) r = Some resp \<and> net p r = Inr resp \<and> ok resp"
proof -
  from fetch_all_got [OF assms(1)]
  have m: "map fst got = rs" and g: "\<forall>e\<in>set got. net p (fst e) = Inr (snd e) \<and> ok (snd e)"
    by simp_all
  from m assms(2) have "r \<in> fst ` set (rev got)" by auto
  then obtain resp where s: "map_of (rev got) r = Some resp"
    by (metis map_of_eq_None_iff not_Some_eq)
  then have "(r, resp) \<in> set got" using map_of_SomeD by fastforce
  with g have "net p r = Inr resp \<and> ok resp" by fastforce
  with s show ?thesis by (simp add: cache_match_put_all)
qed

lemma install_cases:
  "install p w =
    (if open_fails p then (Inl StoreRejected, w)
     else case fetch_all p (map asset_request SHELL_ASSETS) of
       Inl e \<Rightarrow> (Inl e, w\<lparr>caches := caches_open CACHE_NAME (caches w),
                            fetched := fetched w @ map asset_request SHELL_ASSETS\<rparr>)
     | Inr got \<Rightarrow>
         if put_fails p then
           (Inl StoreRejected, w\<lparr>caches := caches_open CACHE_NAME (caches w),
                                   fetched := fetched w @ map asset_request SHELL_ASSETS\<rparr>)
         else
           (Inr (), w\<lparr>caches := with_cache CACHE_NAME (put_all got)
                                   (caches_open CACHE_NAME (caches w)),
                        fetched := fetched w @ map asset_request SHELL_ASSETS\<rparr>))"
  by (simp add: install_def cache_addAll_def Let_def split: sum.splits)

lemma caches_activate:
  "caches (activate w) =
     filter (\<lambda>nc. fst nc = CACHE_NAME \<or> startsWith (fst nc) ''calmstart-audio'') (caches w)"
  unfolding activate_def caches_keys_def
  by (auto simp: foldl_reap intro!: filter_cong)

lemma entries_activate_shell: "entries (caches (activate w)) CACHE_NAME = entries (caches w) CACHE_NAME"
  unfolding caches_activate entries_def
  by (simp add: map_of_filter_fst
      [of "\<lambda>k. k = CACHE_NAME \<or> startsWith k ''calmstart-audio''" "caches w"])

lemma entries_activate_audio:
  "entries (caches (activate w)) AUDIO_CACHE = entries (caches w) AUDIO_CACHE"
proof -
  have "startsWith AUDIO_CACHE ''calmstart-audio''"
    by (simp add: startsWith_def AUDIO_CACHE_def)
  then show ?thesis
    unfolding caches_activate entries_def
    by (simp add: map_of_filter_fst
        [of "\<lambda>k. k = CACHE_NAME \<or> startsWith k ''calmstart-audio''" "caches w"])
qed

lemma cache_put_over: "cache_put r b (cache_put r a c) = cache_put r b c"
  by (simp add: cache_put_def)

text \<open>The definitions that running a handler on a concrete state unfolds.\<close>

lemmas run_defs =
  fetch_handler_def fetch_audio_def fetch_shell_def fetch_default_def do_fetch_def Let_def
  markOffline_def unmarkOffline_def offlineToggle_change_def cache_add_def cache_delete_audio_def
  isSessionCached_def isSessionCached_try_def page_fetch_def storable_def
  reliable_def net_status_def net_down_def fresh_def
  caches_open_def entries_def cache_match_def with_cache_def cache_put_def cache_delete_def
  AUDIO_CACHE_def CACHE_NAME_def ok_def is_audio_def is_shell_def SHELL_ASSETS_def

lemmas install_defs =
  install_def cache_addAll_def put_all_def asset_request_def retrieved_def net_except_def
  update_worker_def

lemma audio_fetch_rejected:
  assumes "is_audio r" and "net p r = Inl e"
    and "cache_match (entries (caches w) AUDIO_CACHE) r = None"
    and "\<not> open_fails p" "\<not> match_fails p"
  shows "fst (fetch_handler p r w) = Inl e"
    and "entries (caches (snd (fetch_handler p r w))) name = entries (caches w) name"
  using assms audio_not_shell [of r]
  by (simp_all add: fetch_handler_def fetch_audio_miss)

lemma markOffline_cases:
  "markOffline p k w =
    (if open_fails p then (ShowedError StoreRejected, w)
     else case page_fetch p k (w\<lparr>caches := caches_open AUDIO_CACHE (caches w)\<rparr>) of
       (Inl e, w2) \<Rightarrow> (ShowedError e, w2)
     | (Inr resp, w2) \<Rightarrow>
         if \<not> ok resp \<or> \<not> storable resp then (ShowedError BadResponse, w2)
         else if put_fails p then (ShowedError StoreRejected, w2)
         else (Rendered,
               w2\<lparr>caches := with_cache AUDIO_CACHE (cache_put k resp) (caches w2)\<rparr>))"
  by (simp add: markOffline_def offlineToggle_change_def cache_add_def Let_def
      split: sum.splits prod.splits)

lemma page_fetch_uncontrolled:
  "\<not> controlled p \<Longrightarrow> page_fetch p r w = (net p r, w\<lparr>fetched := fetched w @ [r]\<rparr>)"
  by (simp add: page_fetch_def do_fetch_def)

lemma caches_match_open [simp]: "caches_match (caches_open n cs) r = caches_match cs r"
proof -
  have "caches_match (cs @ [(n, [])]) r = caches_match cs r"
    by (induction cs) (auto simp: cache_match_def split: option.splits)
  then show ?thesis by (simp add: caches_open_def)
qed


text \<open>Whatever the handler does, a cache that exists still exists afterwards.\<close>

lemma fetch_handler_keeps_cache:
  "map_of (caches w) n = Some c \<Longrightarrow> \<exists>c'. map_of (caches (snd (fetch_handler p r w))) n = Some c'"
  by (auto simp: fetch_handler_def fetch_shell_def fetch_audio_def fetch_default_def do_fetch_def
      Let_def caches_open_def map_of_with_cache split: option.splits sum.splits if_splits)

lemma page_fetch_keeps_cache:
  "map_of (caches w) n = Some c \<Longrightarrow> \<exists>c'. map_of (caches (snd (page_fetch p r w))) n = Some c'"
  using fetch_handler_keeps_cache [of w n c p r]
  by (auto simp: page_fetch_def do_fetch_def split: prod.splits sum.splits)


lemma caches_match_put_hit:
  "caches_match cs k = Some s \<Longrightarrow> caches_match (with_cache n (cache_put k s) cs) k = Some s"
proof (induction cs)
  case Nil
  then show ?case by simp
next
  case (Cons nc cs)
  then show ?case
    by (cases "cache_match (snd nc) k")
      (auto simp: with_cache_def cache_match_put)
qed

lemma caches_match_put_miss:
  "caches_match cs k = None \<Longrightarrow> map_of cs n = Some c \<Longrightarrow>
     caches_match (with_cache n (cache_put k s) cs) k = Some s"
proof (induction cs)
  case Nil
  then show ?case by simp
next
  case (Cons nc cs)
  then show ?case
    by (cases "cache_match (snd nc) k")
      (auto simp: with_cache_def cache_match_put split: if_splits)
qed

lemma caches_match_put:
  assumes "caches_match cs k = None \<or> caches_match cs k = Some s" and "map_of cs n = Some c"
  shows "caches_match (with_cache n (cache_put k s) cs) k = Some s"
  using assms caches_match_put_hit caches_match_put_miss by blast

lemma entries_put_present:
  "map_of cs n = Some c \<Longrightarrow>
     cache_match (entries (with_cache n (cache_put k s) cs) n) k = Some s"
  by (simp add: entries_with_cache_same cache_match_put)

lemma caches_open_put_present:
  "map_of cs n = Some c \<Longrightarrow>
     caches_open n (with_cache n f cs) = with_cache n f cs"
  by (intro caches_open_present) (simp add: map_of_with_cache)

text \<open>Answering the same request again, after the response was put into the audio cache.\<close>

lemma fetch_shell_again:
  assumes "fetch_shell p k w = (Inr resp, w2)" and "map_of (caches w) AUDIO_CACHE = Some c"
  shows "fetch_shell p k (w2\<lparr>caches := with_cache AUDIO_CACHE (cache_put k resp) (caches w2)\<rparr>)
         = (Inr resp, w2\<lparr>caches := with_cache AUDIO_CACHE (cache_put k resp) (caches w2)\<rparr>)"
proof -
  have m: "caches_match (caches w) k = None \<or> caches_match (caches w) k = Some resp"
    using assms(1) by (auto simp: fetch_shell_def do_fetch_def split: if_splits option.splits)
  have c: "caches w2 = caches w"
    using assms(1) by (auto simp: fetch_shell_def do_fetch_def split: if_splits option.splits)
  have f: "\<not> match_fails p"
    using assms(1) by (auto simp: fetch_shell_def split: if_splits)
  show ?thesis
    using f caches_match_put [OF m assms(2)]
    by (simp add: fetch_shell_def c)
qed

lemma fetch_default_again:
  assumes "fetch_default p k w = (Inr resp, w2)" and "map_of (caches w) AUDIO_CACHE = Some c"
    and "rtype resp \<noteq> NetError"
  shows "fst (fetch_default p k
            (w2\<lparr>caches := with_cache AUDIO_CACHE (cache_put k resp) (caches w2)\<rparr>)) = Inr resp
    \<and> caches (snd (fetch_default p k
            (w2\<lparr>caches := with_cache AUDIO_CACHE (cache_put k resp) (caches w2)\<rparr>)))
         = with_cache AUDIO_CACHE (cache_put k resp) (caches w2)"
proof (cases "net p k")
  case (Inr got)
  then show ?thesis
    using assms(1) by (auto simp: fetch_default_def do_fetch_def)
next
  case (Inl e)
  then have m: "caches_match (caches w) k = Some resp" and f: "\<not> match_fails p"
    using assms(1,3)
    by (auto simp: fetch_default_def do_fetch_def Response_error_def
        split: if_splits option.splits)
  have c: "caches w2 = caches w"
    using Inl assms(1) by (auto simp: fetch_default_def do_fetch_def split: if_splits option.splits)
  show ?thesis
    using Inl f caches_match_put_hit [OF m, of AUDIO_CACHE]
    by (simp add: fetch_default_def do_fetch_def c)
qed

lemma fetch_audio_again:
  assumes "fetch_audio p k w = (Inr resp, w2)" and "map_of (caches w) AUDIO_CACHE = Some c"
  shows "fetch_audio p k (w2\<lparr>caches := with_cache AUDIO_CACHE (cache_put k resp) (caches w2)\<rparr>)
         = (Inr resp, w2\<lparr>caches := with_cache AUDIO_CACHE (cache_put k resp) (caches w2)\<rparr>)"
proof -
  let ?w3 = "w2\<lparr>caches := with_cache AUDIO_CACHE (cache_put k resp) (caches w2)\<rparr>"
  have f: "\<not> open_fails p" "\<not> match_fails p"
    using assms(1) by (auto simp: fetch_audio_def Let_def split: if_splits)
  have "\<exists>c'. map_of (caches (snd (fetch_audio p k w))) AUDIO_CACHE = Some c'"
    using assms(2)
    by (auto simp: fetch_audio_def do_fetch_def Let_def caches_open_def map_of_with_cache
        split: option.splits sum.splits if_splits)
  then obtain c2 where p2: "map_of (caches w2) AUDIO_CACHE = Some c2"
    using assms(1) by auto
  have "cache_match (entries (caches ?w3) AUDIO_CACHE) k = Some resp"
    using entries_put_present [OF p2] by simp
  from fetch_audio_hit [OF f this] show ?thesis .
qed

text \<open>Answering the same request again, on the state the first answer left.\<close>

lemma fetch_shell_repeat:
  assumes "fetch_shell p k w = (res, w2)"
  shows "fst (fetch_shell p k w2) = res \<and> caches (snd (fetch_shell p k w2)) = caches w2"
  using assms
  by (auto simp: fetch_shell_def do_fetch_def split: if_splits option.splits)

lemma fetch_default_repeat:
  assumes "fetch_default p k w = (res, w2)"
  shows "fst (fetch_default p k w2) = res \<and> caches (snd (fetch_default p k w2)) = caches w2"
  using assms
  by (auto simp: fetch_default_def do_fetch_def split: if_splits option.splits sum.splits)

lemma fetch_audio_repeat:
  assumes "fetch_audio p k w = (res, w2)"
  shows "fst (fetch_audio p k w2) = res \<and> caches (snd (fetch_audio p k w2)) = caches w2"
proof (cases "open_fails p \<or> match_fails p")
  case True
  then show ?thesis
    using assms by (auto simp: fetch_audio_def Let_def)
next
  case False
  then have f: "\<not> open_fails p" "\<not> match_fails p" by simp_all
  show ?thesis
  proof (cases "cache_match (entries (caches w) AUDIO_CACHE) k")
    case (Some cached)
    from fetch_audio_hit [OF f Some] assms have "res = Inr cached" "w2 = w" by simp_all
    then show ?thesis using fetch_audio_hit [OF f Some] by simp
  next
    case None
    note r = fetch_audio_miss [OF f None]
    show ?thesis
    proof (cases "net p k")
      case (Inl e)
      with r assms have w2: "res = Inl e"
        "w2 = w\<lparr>caches := caches_open AUDIO_CACHE (caches w), fetched := fetched w @ [k]\<rparr>"
        by simp_all
      have "cache_match (entries (caches w2) AUDIO_CACHE) k = None"
        using None by (simp add: w2)
      from fetch_audio_miss [OF f this] Inl show ?thesis
        by (simp add: w2)
    next
      case (Inr resp)
      show ?thesis
      proof (cases "\<not> storable resp \<or> put_fails p")
        case True
        with r assms Inr have w2: "res = Inr resp"
          "w2 = w\<lparr>caches := caches_open AUDIO_CACHE (caches w), fetched := fetched w @ [k]\<rparr>"
          by auto
        have "cache_match (entries (caches w2) AUDIO_CACHE) k = None"
          using None by (simp add: w2)
        from fetch_audio_miss [OF f this] Inr True show ?thesis
          by (auto simp: w2)
      next
        case False
        with r assms Inr have w2: "res = Inr resp"
          "w2 = w\<lparr>caches := with_cache AUDIO_CACHE (cache_put k resp)
                               (caches_open AUDIO_CACHE (caches w)),
                 fetched := fetched w @ [k]\<rparr>"
          by auto
        have "cache_match (entries (caches w2) AUDIO_CACHE) k = Some resp"
          by (simp add: w2 cache_match_put)
        from fetch_audio_hit [OF f this] show ?thesis
          by (simp add: w2)
      qed
    qed
  qed
qed

lemma page_fetch_repeat:
  assumes "page_fetch p k w = (res, w2)"
  shows "fst (page_fetch p k w2) = res \<and> caches (snd (page_fetch p k w2)) = caches w2"
proof (cases "controlled p")
  case False
  then show ?thesis
    using assms by (auto simp: page_fetch_uncontrolled)
next
  case True
  obtain hres where h: "fetch_handler p k w = (hres, w2)"
    using assms True by (auto simp: page_fetch_def split: prod.splits sum.splits if_splits)
  have "fst (fetch_handler p k w2) = hres \<and> caches (snd (fetch_handler p k w2)) = caches w2"
    using h fetch_shell_repeat [of p k w hres w2] fetch_audio_repeat [of p k w hres w2]
      fetch_default_repeat [of p k w hres w2]
    by (simp add: fetch_handler_def split: if_splits)
  then show ?thesis
    using assms True h
    by (cases "fetch_handler p k w2") (auto simp: page_fetch_def split: sum.splits if_splits)
qed

lemma page_fetch_again:
  assumes "page_fetch p k w = (Inr resp, w2)" and "map_of (caches w) AUDIO_CACHE = Some c"
  shows "fst (page_fetch p k
            (w2\<lparr>caches := with_cache AUDIO_CACHE (cache_put k resp) (caches w2)\<rparr>)) = Inr resp
    \<and> caches (snd (page_fetch p k
            (w2\<lparr>caches := with_cache AUDIO_CACHE (cache_put k resp) (caches w2)\<rparr>)))
         = with_cache AUDIO_CACHE (cache_put k resp) (caches w2)"
proof (cases "controlled p")
  case False
  then show ?thesis
    using assms by (auto simp: page_fetch_uncontrolled)
next
  case True
  have h: "fetch_handler p k w = (Inr resp, w2)" and t: "rtype resp \<noteq> NetError"
    using assms(1) True by (auto simp: page_fetch_def split: prod.splits sum.splits if_splits)
  let ?w3 = "w2\<lparr>caches := with_cache AUDIO_CACHE (cache_put k resp) (caches w2)\<rparr>"
  have "fst (fetch_handler p k ?w3) = Inr resp
      \<and> caches (snd (fetch_handler p k ?w3)) = with_cache AUDIO_CACHE (cache_put k resp) (caches w2)"
    using h t fetch_shell_again [of p k w resp w2, OF _ assms(2)]
      fetch_audio_again [of p k w resp w2, OF _ assms(2)]
      fetch_default_again [of p k w resp w2, OF _ assms(2)]
    by (auto simp: fetch_handler_def split: if_splits)
  then show ?thesis
    using True t
    by (cases "fetch_handler p k ?w3") (auto simp: page_fetch_def)
qed

text \<open>
  What holds of \<^verbatim>\<open>markOffline\<close> called twice on the same platform: the second call gives
  the outcome and the cache storage of the first.
\<close>

lemma markOffline_twice:
  "fst (markOffline p k (snd (markOffline p k w))) = fst (markOffline p k w)
   \<and> caches (snd (markOffline p k (snd (markOffline p k w)))) = caches (snd (markOffline p k w))"
proof (cases "open_fails p")
  case True
  then show ?thesis by (simp add: markOffline_cases)
next
  case False
  let ?w1 = "w\<lparr>caches := caches_open AUDIO_CACHE (caches w)\<rparr>"
  obtain res w2 where pf: "page_fetch p k ?w1 = (res, w2)"
    by (cases "page_fetch p k ?w1")
  obtain c1 where p1: "map_of (caches ?w1) AUDIO_CACHE = Some c1"
    using map_of_caches_open_same [of AUDIO_CACHE "caches w"] by auto
  from page_fetch_keeps_cache [OF p1, of p k] pf
  obtain c2 where p2: "map_of (caches w2) AUDIO_CACHE = Some c2" by auto
  have o2: "w2\<lparr>caches := caches_open AUDIO_CACHE (caches w2)\<rparr> = w2"
    using p2 by (simp add: caches_open_present)
  show ?thesis
  proof (cases "\<exists>resp. res = Inr resp \<and> ok resp \<and> storable resp \<and> \<not> put_fails p")
    case True
    then obtain resp where r: "res = Inr resp" "ok resp" "storable resp" "\<not> put_fails p"
      by blast
    let ?w3 = "w2\<lparr>caches := with_cache AUDIO_CACHE (cache_put k resp) (caches w2)\<rparr>"
    have m1: "markOffline p k w = (Rendered, ?w3)"
      using False pf r by (simp add: markOffline_cases)
    have o3: "?w3\<lparr>caches := caches_open AUDIO_CACHE (caches ?w3)\<rparr> = ?w3"
      using caches_open_put_present [OF p2] by simp
    obtain res' w4 where pf': "page_fetch p k ?w3 = (res', w4)"
      by (cases "page_fetch p k ?w3")
    from page_fetch_again [OF pf [unfolded r(1)] p1] pf'
    have a: "res' = Inr resp"
      "caches w4 = with_cache AUDIO_CACHE (cache_put k resp) (caches w2)"
      by simp_all
    have m2: "markOffline p k ?w3
        = (Rendered, w4\<lparr>caches := with_cache AUDIO_CACHE (cache_put k resp) (caches w4)\<rparr>)"
      using False r pf' a(1)
      by (simp add: markOffline_cases [of p k ?w3] caches_open_put_present [OF p2])
    show ?thesis
      unfolding m1 using m2 by (simp add: a(2) with_cache_twice cache_put_twice)
  next
    case F: False
    have m1: "snd (markOffline p k w) = w2"
      using False pf F by (auto simp: markOffline_cases split: sum.splits)
    obtain res' w4 where pf': "page_fetch p k w2 = (res', w4)"
      by (cases "page_fetch p k w2")
    from page_fetch_repeat [OF pf] pf'
    have a: "res' = res" "caches w4 = caches w2" by simp_all
    have "fst (markOffline p k w2) = fst (markOffline p k w)
        \<and> caches (snd (markOffline p k w2)) = caches w2"
      using False F pf pf' a
      by (auto simp: markOffline_cases [of p k w2] markOffline_cases [of p k w] o2
          split: sum.splits)
    then show ?thesis by (simp add: m1)
  qed
qed

text \<open>A call that succeeds leaves exactly one entry for the key.\<close>

lemma markOffline_one_entry:
  assumes "fst (markOffline p k w) = Rendered"
  shows "length (filter (\<lambda>e. fst e = k) (entries (caches (snd (markOffline p k w))) AUDIO_CACHE)) = 1"
proof -
  let ?w1 = "w\<lparr>caches := caches_open AUDIO_CACHE (caches w)\<rparr>"
  obtain res w2 where pf: "page_fetch p k ?w1 = (res, w2)"
    by (cases "page_fetch p k ?w1")
  obtain c1 where p1: "map_of (caches ?w1) AUDIO_CACHE = Some c1"
    using map_of_caches_open_same [of AUDIO_CACHE "caches w"] by auto
  from page_fetch_keeps_cache [OF p1, of p k] pf
  have p2: "map_of (caches w2) AUDIO_CACHE \<noteq> None" by auto
  from assms pf obtain resp where
    "snd (markOffline p k w) = w2\<lparr>caches := with_cache AUDIO_CACHE (cache_put k resp) (caches w2)\<rparr>"
    by (auto simp: markOffline_cases split: if_splits sum.splits)
  then show ?thesis
    using p2 by (simp add: entries_with_cache_same cache_put_count)
qed

text \<open>A call that fails on a key the audio cache has an entry for changes no cache.\<close>

lemma markOffline_failed_keeps_entry:
  assumes "cache_match (entries (caches w) AUDIO_CACHE) k = Some c"
    and "fst (markOffline p k w) = ShowedError e"
  shows "caches (snd (markOffline p k w)) = caches w"
proof (cases "open_fails p")
  case True
  then show ?thesis by (simp add: markOffline_cases)
next
  case False
  have o: "w\<lparr>caches := caches_open AUDIO_CACHE (caches w)\<rparr> = w"
    using entries_present [OF assms(1)] by simp
  have h: "caches (snd (fetch_handler p k w)) = caches w"
  proof (cases "open_fails p \<or> match_fails p")
    case True
    then show ?thesis
      using entries_present [OF assms(1)]
      by (auto simp: fetch_handler_def fetch_shell_def fetch_audio_def fetch_default_def
          do_fetch_def Let_def split: sum.splits option.splits)
  next
    case F: False
    then show ?thesis
      using fetch_audio_hit [OF _ _ assms(1), of p]
      by (auto simp: fetch_handler_def fetch_shell_def fetch_default_def
          do_fetch_def split: sum.splits option.splits)
  qed
  have "caches (snd (page_fetch p k w)) = caches w"
    using h by (auto simp: page_fetch_def do_fetch_def split: prod.splits sum.splits)
  then show ?thesis
    using False assms(2)
    by (cases "page_fetch p k w") (auto simp: markOffline_cases o split: sum.splits if_splits)
qed

section \<open>Activation\<close>

text \<open>
  C5. Activation keeps exactly the caches whose name is \<^verbatim>\<open>CACHE_NAME\<close> or starts with
  \<^verbatim>\<open>calmstart-audio\<close>, in their order and with their entries, and deletes every
  other one. The audio cache and the current shell cache are therefore what they were
  before, and nothing goes to the network.
\<close>

theorem activate_reaps:
  "caches (activate w) =
     filter (\<lambda>nc. fst nc = CACHE_NAME \<or> startsWith (fst nc) ''calmstart-audio'') (caches w)
   \<and> entries (caches (activate w)) AUDIO_CACHE = entries (caches w) AUDIO_CACHE
   \<and> entries (caches (activate w)) CACHE_NAME = entries (caches w) CACHE_NAME
   \<and> fetched (activate w) = fetched w"
  by (simp add: caches_activate [symmetric] entries_activate_audio entries_activate_shell)
    (simp add: activate_def)

text \<open>
  With the caches of shell version 2, shell version 3 and audio, activation deletes the
  first and keeps the other two; the audio entry is untouched.
\<close>

theorem activate_reaps_witness:
  "caches_keys (caches (activate three_stores)) = [''calmstart-shell-v3'', ''calmstart-audio-v1'']
   \<and> entries (caches (activate three_stores)) AUDIO_CACHE
       = [(rain, \<lparr>rtype = Basic, status = 200, body = ''drops'', vary = []\<rparr>)]"
  using activate_reaps [of three_stores]
  by (simp add: three_stores_def caches_keys_def CACHE_NAME_def AUDIO_CACHE_def
      startsWith_def entries_def)

section \<open>The shell strategy\<close>

text \<open>
  C9. A shell request never changes the cache storage. When the lookup over all caches
  works, the answer is the first stored match, with nothing sent to the network, and
  otherwise what the network gives for this one fetch (a response, or its rejection).
  When the lookup itself rejects, so does the handler, and nothing has happened.
\<close>

theorem shell_cache_first:
  assumes "is_shell r"
  shows "caches (snd (fetch_handler p r w)) = caches w
    \<and> (\<not> match_fails p \<longrightarrow>
        fst (fetch_handler p r w) =
          (case caches_match (caches w) r of Some resp \<Rightarrow> Inr resp | None \<Rightarrow> net p r)
      \<and> fetched (snd (fetch_handler p r w)) =
          (case caches_match (caches w) r of Some resp \<Rightarrow> fetched w | None \<Rightarrow> fetched w @ [r]))
    \<and> (match_fails p \<longrightarrow> fetch_handler p r w = (Inl StoreRejected, w))"
  using assms
  by (simp add: fetch_handler_def fetch_shell_def do_fetch_def split: option.splits)

text \<open>
  The script of the installed shell is served from the version 3 cache while the
  network is down; with no cache at all it comes from the network and is not stored.
\<close>

theorem shell_cache_first_witness:
  "is_shell (asset_request ''./app.js'')
   \<and> fetch_handler (reliable net_down) (asset_request ''./app.js'') (activate three_stores)
       = (Inr \<lparr>rtype = Basic, status = 200, body = ''new'', vary = []\<rparr>, activate three_stores)
   \<and> fetch_handler (reliable (net_status 200)) (asset_request ''./app.js'') fresh
       = (Inr \<lparr>rtype = Basic, status = 200, body = ''bytes of /app.js'', vary = []\<rparr>,
          \<lparr>caches = [], fetched = [asset_request ''./app.js'']\<rparr>)"
proof -
  have s: "is_shell (asset_request ''./app.js'')"
    by (simp add: is_shell_def asset_request_def SHELL_ASSETS_def)
  have m: "\<not> match_fails (reliable n)" for n
    by (simp add: reliable_def)
  have a: "caches (activate three_stores) =
      [(''calmstart-shell-v3'',
          [(asset_request ''./app.js'', \<lparr>rtype = Basic, status = 200, body = ''new'', vary = []\<rparr>)]),
       (''calmstart-audio-v1'',
          [(rain, \<lparr>rtype = Basic, status = 200, body = ''drops'', vary = []\<rparr>)])]"
    by (simp add: caches_activate three_stores_def CACHE_NAME_def startsWith_def)
  have 1: "fetch_handler (reliable net_down) (asset_request ''./app.js'') (activate three_stores)
       = (Inr \<lparr>rtype = Basic, status = 200, body = ''new'', vary = []\<rparr>, activate three_stores)"
    using shell_cache_first [OF s, of "reliable net_down" "activate three_stores"] m [of net_down]
    by (simp add: a cache_match_def prod_eq_iff)
  have 2: "fetch_handler (reliable (net_status 200)) (asset_request ''./app.js'') fresh
       = (Inr \<lparr>rtype = Basic, status = 200, body = ''bytes of /app.js'', vary = []\<rparr>,
          \<lparr>caches = [], fetched = [asset_request ''./app.js'']\<rparr>)"
    using shell_cache_first [OF s, of "reliable (net_status 200)" fresh] m [of "net_status 200"]
    by (simp add: fresh_def prod_eq_iff reliable_def net_status_def asset_request_def)
  show ?thesis using s 1 2 by simp
qed

section \<open>The audio strategy\<close>

text \<open>
  The audio branch does not store every response it fetched. A partial response (status
  206, the answer to a range request) is returned to the caller and the store refuses
  it, so nothing is written and the next request for the file goes to the network
  again; nothing is written either when the write fails. And when the lookup rejects,
  an entry that is stored is not returned.
\<close>

theorem audio_write_refused:
  "fetch_handler (reliable (net_status 206)) rain fresh
     = (Inr \<lparr>rtype = Basic, status = 206, body = ''bytes of /audio/rain.mp3'', vary = []\<rparr>,
        \<lparr>caches = [(''calmstart-audio-v1'', [])], fetched = [rain]\<rparr>)
   \<and> fetch_handler (reliable (net_status 206)) rain
         (snd (fetch_handler (reliable (net_status 206)) rain fresh))
     = (Inr \<lparr>rtype = Basic, status = 206, body = ''bytes of /audio/rain.mp3'', vary = []\<rparr>,
        \<lparr>caches = [(''calmstart-audio-v1'', [])], fetched = [rain, rain]\<rparr>)
   \<and> fetch_handler ((reliable (net_status 200))\<lparr>put_fails := True\<rparr>) rain fresh
     = (Inr \<lparr>rtype = Basic, status = 200, body = ''bytes of /audio/rain.mp3'', vary = []\<rparr>,
        \<lparr>caches = [(''calmstart-audio-v1'', [])], fetched = [rain]\<rparr>)
   \<and> fst (fetch_handler ((reliable net_down)\<lparr>match_fails := True\<rparr>) rain three_stores)
     = Inl StoreRejected"
proof -
  have w: "fetch_handler (reliable (net_status 206)) rain fresh
     = (Inr \<lparr>rtype = Basic, status = 206, body = ''bytes of /audio/rain.mp3'', vary = []\<rparr>,
        \<lparr>caches = [(''calmstart-audio-v1'', [])], fetched = [rain]\<rparr>)"
    by (simp add: run_defs rain_def)
  show ?thesis
    unfolding w by (simp add: run_defs rain_def three_stores_def)
qed

text \<open>
  C4, as the code has it. For an audio request, with opening and matching the audio
  cache working: a cached entry is returned and the state, network log included, is
  what it was. On a miss where the fetch resolves with a response the store takes and
  the write goes through, the response goes to the caller, the request is the one fetch
  logged, and the same response is stored under the request; the next request for it,
  on any network, gets that response back and leaves the state, network log included,
  alone. On a miss where the fetch resolves with a response the store does not take, or
  the write fails, the caller gets the response all the same and every cache has the
  entries it had.
\<close>

theorem audio_cache_first_write_through:
  assumes "is_audio r"
    and "\<not> open_fails p" "\<not> match_fails p"
    and "\<not> open_fails p2" "\<not> match_fails p2"
  shows "(cache_match (entries (caches w) AUDIO_CACHE) r = Some cached \<longrightarrow>
            fetch_handler p r w = (Inr cached, w))
    \<and> (cache_match (entries (caches w) AUDIO_CACHE) r = None \<and> net p r = Inr resp
         \<and> storable resp \<and> \<not> put_fails p \<longrightarrow>
          fst (fetch_handler p r w) = Inr resp
        \<and> fetched (snd (fetch_handler p r w)) = fetched w @ [r]
        \<and> cache_match (entries (caches (snd (fetch_handler p r w))) AUDIO_CACHE) r = Some resp
        \<and> fetch_handler p2 r (snd (fetch_handler p r w))
            = (Inr resp, snd (fetch_handler p r w)))
    \<and> (cache_match (entries (caches w) AUDIO_CACHE) r = None \<and> net p r = Inr resp
         \<and> (\<not> storable resp \<or> put_fails p) \<longrightarrow>
          fst (fetch_handler p r w) = Inr resp
        \<and> fetched (snd (fetch_handler p r w)) = fetched w @ [r]
        \<and> (\<forall>name. entries (caches (snd (fetch_handler p r w))) name = entries (caches w) name))"
proof -
  have h: "fetch_handler q r v = fetch_audio q r v" for q v
    using assms(1) audio_not_shell [of r] by (simp add: fetch_handler_def)
  have hit: "fetch_handler p r w = (Inr cached, w)"
    if "cache_match (entries (caches w) AUDIO_CACHE) r = Some cached"
    using that assms(2,3) by (simp add: h fetch_audio_hit)
  have miss: "fst (fetch_handler p r w) = Inr resp
        \<and> fetched (snd (fetch_handler p r w)) = fetched w @ [r]
        \<and> cache_match (entries (caches (snd (fetch_handler p r w))) AUDIO_CACHE) r = Some resp
        \<and> fetch_handler p2 r (snd (fetch_handler p r w))
            = (Inr resp, snd (fetch_handler p r w))"
    if m: "cache_match (entries (caches w) AUDIO_CACHE) r = None" and n: "net p r = Inr resp"
      and s: "storable resp" "\<not> put_fails p"
  proof -
    let ?w' = "w\<lparr>caches := with_cache AUDIO_CACHE (cache_put r resp)
                               (caches_open AUDIO_CACHE (caches w)),
                 fetched := fetched w @ [r]\<rparr>"
    have 1: "fetch_handler p r w = (Inr resp, ?w')"
      using assms(2,3) m n s by (simp add: h fetch_audio_miss)
    have 2: "cache_match (entries (caches ?w') AUDIO_CACHE) r = Some resp"
      by (simp add: cache_match_put)
    have 3: "fetch_handler p2 r ?w' = (Inr resp, ?w')"
      unfolding h using assms(4,5) 2 by (rule fetch_audio_hit)
    show ?thesis
      unfolding 1 using 2 3 by simp
  qed
  have refused: "fst (fetch_handler p r w) = Inr resp
        \<and> fetched (snd (fetch_handler p r w)) = fetched w @ [r]
        \<and> (\<forall>name. entries (caches (snd (fetch_handler p r w))) name = entries (caches w) name)"
    if m: "cache_match (entries (caches w) AUDIO_CACHE) r = None" and n: "net p r = Inr resp"
      and s: "\<not> storable resp \<or> put_fails p"
    using assms(2,3) m n s by (auto simp: h fetch_audio_miss)
  show ?thesis using hit miss refused by blast
qed

text \<open>
  The first request for \<^verbatim>\<open>/audio/rain.mp3\<close> fetches once and stores the 200 response;
  the second one, with the network down, returns the same bytes and fetches nothing. A
  206 response is returned and the audio cache stays empty.
\<close>

theorem audio_cache_first_write_through_witness:
  "is_audio rain
   \<and> storable \<lparr>rtype = Basic, status = 200, body = ''bytes of /audio/rain.mp3'', vary = []\<rparr>
   \<and> fetch_handler (reliable (net_status 200)) rain fresh
       = (Inr \<lparr>rtype = Basic, status = 200, body = ''bytes of /audio/rain.mp3'', vary = []\<rparr>,
          \<lparr>caches = [(''calmstart-audio-v1'',
               [(rain, \<lparr>rtype = Basic, status = 200, body = ''bytes of /audio/rain.mp3'',
                         vary = []\<rparr>)])],
           fetched = [rain]\<rparr>)
   \<and> fetch_handler (reliable net_down) rain
         (snd (fetch_handler (reliable (net_status 200)) rain fresh))
       = (Inr \<lparr>rtype = Basic, status = 200, body = ''bytes of /audio/rain.mp3'', vary = []\<rparr>,
          \<lparr>caches = [(''calmstart-audio-v1'',
               [(rain, \<lparr>rtype = Basic, status = 200, body = ''bytes of /audio/rain.mp3'',
                         vary = []\<rparr>)])],
           fetched = [rain]\<rparr>)
   \<and> \<not> storable \<lparr>rtype = Basic, status = 206, body = ''bytes of /audio/rain.mp3'', vary = []\<rparr>
   \<and> fst (fetch_handler (reliable (net_status 206)) rain fresh)
       = Inr \<lparr>rtype = Basic, status = 206, body = ''bytes of /audio/rain.mp3'', vary = []\<rparr>
   \<and> entries (caches (snd (fetch_handler (reliable (net_status 206)) rain fresh))) AUDIO_CACHE = []"
proof -
  have a: "is_audio rain"
    by (simp add: is_audio_def rain_def)
  have f: "\<not> open_fails (reliable n)" "\<not> match_fails (reliable n)" "\<not> put_fails (reliable n)" for n
    by (simp_all add: reliable_def)
  have m: "cache_match (entries (caches fresh) AUDIO_CACHE) rain = None"
    by (simp add: fresh_def entries_def cache_match_def)
  have n: "net (reliable (net_status s)) rain
      = Inr \<lparr>rtype = Basic, status = s, body = ''bytes of /audio/rain.mp3'', vary = []\<rparr>" for s
    by (simp add: reliable_def net_status_def rain_def)
  have s: "storable \<lparr>rtype = Basic, status = 200, body = ''bytes of /audio/rain.mp3'', vary = []\<rparr>"
    "\<not> storable \<lparr>rtype = Basic, status = 206, body = ''bytes of /audio/rain.mp3'', vary = []\<rparr>"
    by (simp_all add: storable_def)
  have w: "snd (fetch_handler (reliable (net_status 200)) rain fresh)
      = \<lparr>caches = [(''calmstart-audio-v1'',
               [(rain, \<lparr>rtype = Basic, status = 200, body = ''bytes of /audio/rain.mp3'',
                         vary = []\<rparr>)])],
           fetched = [rain]\<rparr>"
    by (simp add: run_defs rain_def)
  have e: "entries (caches fresh) AUDIO_CACHE = []"
    by (simp add: fresh_def entries_def)
  show ?thesis
    using audio_cache_first_write_through
      [OF a f(1) [of "net_status 200"] f(2) [of "net_status 200"]
          f(1) [of net_down] f(2) [of net_down],
       of fresh _ "\<lparr>rtype = Basic, status = 200, body = ''bytes of /audio/rain.mp3'',
                    vary = []\<rparr>"]
      audio_cache_first_write_through
      [OF a f(1) [of "net_status 206"] f(2) [of "net_status 206"]
          f(1) [of net_down] f(2) [of net_down],
       of fresh _ "\<lparr>rtype = Basic, status = 206, body = ''bytes of /audio/rain.mp3'',
                    vary = []\<rparr>"]
      a m n [of 200] n [of 206] s f(3) e
    by (simp add: w prod_eq_iff)
qed

text \<open>
  C1. The audio branch puts the response into the audio cache without looking at its
  status. On an empty storage, with a network that answers 404 for the rain file, the
  handler returns the 404 response and the audio cache then holds it as the entry of
  the file: \<^verbatim>\<open>isSessionCached\<close> says true although the file was never retrieved, and
  a later request gets the 404 entry back even when the network would answer 200.
\<close>

theorem audio_branch_stores_404:
  "fst (fetch_handler (reliable (net_status 404)) rain fresh)
     = Inr \<lparr>rtype = Basic, status = 404, body = ''bytes of /audio/rain.mp3'', vary = []\<rparr>
   \<and> \<not> ok \<lparr>rtype = Basic, status = 404, body = ''bytes of /audio/rain.mp3'', vary = []\<rparr>
   \<and> entries (caches (snd (fetch_handler (reliable (net_status 404)) rain fresh))) AUDIO_CACHE
       = [(rain, \<lparr>rtype = Basic, status = 404, body = ''bytes of /audio/rain.mp3'', vary = []\<rparr>)]
   \<and> fst (isSessionCached (reliable net_down) rain
            (snd (fetch_handler (reliable (net_status 404)) rain fresh))) = True
   \<and> fst (fetch_handler (reliable (net_status 200)) rain
            (snd (fetch_handler (reliable (net_status 404)) rain fresh)))
       = Inr \<lparr>rtype = Basic, status = 404, body = ''bytes of /audio/rain.mp3'', vary = []\<rparr>"
proof -
  have w: "snd (fetch_handler (reliable (net_status 404)) rain fresh)
      = \<lparr>caches = [(''calmstart-audio-v1'',
           [(rain, \<lparr>rtype = Basic, status = 404, body = ''bytes of /audio/rain.mp3'', vary = []\<rparr>)])],
         fetched = [rain]\<rparr>"
    by (simp add: run_defs rain_def)
  show ?thesis
    unfolding w by (simp add: run_defs rain_def)
qed

text \<open>
  C3. A fetch that resolves with an error status is no rejection for the audio branch:
  for a key the audio cache does not have and a network that answers 503, the handler
  returns the 503 response and the cache storage has changed, the audio cache now
  holding the 503 response under the key. (When the fetch itself rejects, the rejection
  reaches the caller and no entry is written: \<open>audio_fetch_rejected\<close>.)
\<close>

theorem audio_error_status_creates_entry:
  "cache_match (entries (caches three_stores) AUDIO_CACHE) waves = None
   \<and> fst (fetch_handler (reliable (net_status 503)) waves three_stores)
       = Inr \<lparr>rtype = Basic, status = 503, body = ''bytes of /audio/waves.mp3'', vary = []\<rparr>
   \<and> cache_match
        (entries (caches (snd (fetch_handler (reliable (net_status 503)) waves three_stores)))
           AUDIO_CACHE) waves
       = Some \<lparr>rtype = Basic, status = 503, body = ''bytes of /audio/waves.mp3'', vary = []\<rparr>
   \<and> caches (snd (fetch_handler (reliable (net_status 503)) waves three_stores))
       \<noteq> caches three_stores"
  by (simp add: run_defs three_stores_def waves_def rain_def)

section \<open>What the caller of the fetch handler receives\<close>

text \<open>
  The handler's promise can reject: for an audio or a shell request that misses the
  store while the network is down, and for any class when the store operation the
  branch waits for rejects.
\<close>

theorem fetch_handler_rejects:
  "fst (fetch_handler (reliable net_down) rain fresh) = Inl FetchRejected
   \<and> fst (fetch_handler (reliable net_down) (asset_request ''./app.js'') fresh) = Inl FetchRejected
   \<and> fst (fetch_handler ((reliable net_down)\<lparr>match_fails := True\<rparr>) tips fresh) = Inl StoreRejected
   \<and> fst (fetch_handler ((reliable (net_status 200))\<lparr>match_fails := True\<rparr>)
            (asset_request ''./app.js'') fresh) = Inl StoreRejected
   \<and> fst (fetch_handler ((reliable (net_status 200))\<lparr>open_fails := True\<rparr>) rain fresh)
       = Inl StoreRejected"
  by (simp add: run_defs rain_def tips_def asset_request_def)

text \<open>
  C2, as the code has it. The promise rejects in exactly these cases. Shell: the lookup
  rejects, or it finds nothing and the fetch rejects. Audio: opening or matching
  rejects, or there is no entry and the fetch rejects. Default: the fetch rejects and
  the fallback lookup rejects too. In every other case the caller gets a response; for
  a default request whose fetch rejects and whose fallback lookup finds nothing, that
  response is \<^verbatim>\<open>Response.error()\<close>.
\<close>

theorem fetch_handler_outcomes:
  "((\<exists>e. fst (fetch_handler p r w) = Inl e) =
      (if is_shell r then
         match_fails p \<or> (caches_match (caches w) r = None \<and> (\<exists>e. net p r = Inl e))
       else if is_audio r then
         open_fails p \<or> match_fails p
         \<or> (cache_match (entries (caches w) AUDIO_CACHE) r = None \<and> (\<exists>e. net p r = Inl e))
       else match_fails p \<and> (\<exists>e. net p r = Inl e)))
   \<and> (\<not> is_shell r \<and> \<not> is_audio r \<and> \<not> match_fails p \<and> (\<exists>e. net p r = Inl e)
        \<and> caches_match (caches w) r = None \<longrightarrow>
          fst (fetch_handler p r w) = Inr Response_error)"
proof -
  have s: "(\<exists>e. fst (fetch_shell p r w) = Inl e) =
      (match_fails p \<or> (caches_match (caches w) r = None \<and> (\<exists>e. net p r = Inl e)))"
    by (simp add: fetch_shell_def do_fetch_def split: option.splits)
  have a: "(\<exists>e. fst (fetch_audio p r w) = Inl e) =
      (open_fails p \<or> match_fails p
         \<or> (cache_match (entries (caches w) AUDIO_CACHE) r = None \<and> (\<exists>e. net p r = Inl e)))"
    by (auto simp: fetch_audio_def do_fetch_def Let_def split: option.splits sum.splits)
  have d: "(\<exists>e. fst (fetch_default p r w) = Inl e) = (match_fails p \<and> (\<exists>e. net p r = Inl e))"
    by (auto simp: fetch_default_def do_fetch_def split: option.splits sum.splits)
  have e: "fst (fetch_default p r w) = Inr Response_error"
    if "\<not> match_fails p" "\<exists>e. net p r = Inl e" "caches_match (caches w) r = None"
    using that by (auto simp: fetch_default_def do_fetch_def)
  show ?thesis
    using s a d e by (simp add: fetch_handler_def)
qed

text \<open>
  A default request with the network down and nothing stored for it gets
  \<^verbatim>\<open>Response.error()\<close>.
\<close>

theorem fetch_handler_outcomes_witness:
  "\<not> is_shell tips \<and> \<not> is_audio tips \<and> \<not> match_fails (reliable net_down)
   \<and> net (reliable net_down) tips = Inl FetchRejected
   \<and> caches_match (caches three_stores) tips = None
   \<and> fst (fetch_handler (reliable net_down) tips three_stores) = Inr Response_error"
proof -
  have 1: "\<not> is_shell tips \<and> \<not> is_audio tips"
    by (simp add: is_shell_def is_audio_def tips_def SHELL_ASSETS_def)
  have 2: "\<not> match_fails (reliable net_down) \<and> net (reliable net_down) tips = Inl FetchRejected"
    by (simp add: reliable_def net_down_def)
  have 3: "caches_match (caches three_stores) tips = None"
    by (simp add: three_stores_def cache_match_def tips_def asset_request_def rain_def)
  show ?thesis
    using fetch_handler_outcomes [of "reliable net_down" tips three_stores] 1 2 3
    by simp
qed

section \<open>The page's view of the audio cache\<close>

text \<open>
  C8. \<^verbatim>\<open>isSessionCached\<close> returns a boolean whatever the store does: what its
  \<^verbatim>\<open>try\<close> computes when that returns, and false when it throws. It throws exactly
  when opening or matching rejects. So the answer is true exactly when no store
  operation rejects and the audio cache has an entry for the key; it changes no entry
  and sends nothing to the network.
\<close>

theorem isSessionCached_total:
  "fst (isSessionCached p k w) =
     (case fst (isSessionCached_try p k w) of Inl e \<Rightarrow> False | Inr b \<Rightarrow> b)
   \<and> fst (isSessionCached_try p k w) =
     (if open_fails p \<or> match_fails p then Inl StoreRejected
      else Inr (cache_match (entries (caches w) AUDIO_CACHE) k \<noteq> None))
   \<and> fst (isSessionCached p k w) =
     (\<not> open_fails p \<and> \<not> match_fails p \<and> cache_match (entries (caches w) AUDIO_CACHE) k \<noteq> None)
   \<and> (\<forall>name. entries (caches (snd (isSessionCached p k w))) name = entries (caches w) name)
   \<and> fetched (snd (isSessionCached p k w)) = fetched w"
  by (simp add: isSessionCached_def isSessionCached_try_def Let_def)


text \<open>
  With the rain file stored the answer is true; it is false when matching or opening
  rejects although the file is stored, and false on an empty storage.
\<close>

theorem isSessionCached_total_witness:
  "fst (isSessionCached (reliable net_down) rain three_stores) = True
   \<and> fst (isSessionCached ((reliable net_down)\<lparr>match_fails := True\<rparr>) rain three_stores) = False
   \<and> fst (isSessionCached ((reliable net_down)\<lparr>open_fails := True\<rparr>) rain three_stores) = False
   \<and> fst (isSessionCached (reliable net_down) rain fresh) = False"
  using isSessionCached_total [of "reliable net_down" rain three_stores]
    isSessionCached_total [of "(reliable net_down)\<lparr>match_fails := True\<rparr>" rain three_stores]
    isSessionCached_total [of "(reliable net_down)\<lparr>open_fails := True\<rparr>" rain three_stores]
    isSessionCached_total [of "reliable net_down" rain fresh]
  by (simp add: reliable_def three_stores_def fresh_def entries_def AUDIO_CACHE_def
      cache_match_def rain_def)




text \<open>
  C7. A call of \<^verbatim>\<open>markOffline\<close> that fails can leave an entry behind. On the page the
  worker controls and an empty storage, a first call with the network down fails and
  the key stays absent; a second call, on a network that answers 404, fails as well,
  but the worker's audio branch has stored the 404 response while answering the fetch
  of \<^verbatim>\<open>cache.add\<close>: the key now has an entry that no call put there with success, and
  \<^verbatim>\<open>isSessionCached\<close> says true. (Two calls on one platform do leave what one call
  leaves, a call that succeeds leaves exactly one entry, and a failed call on a key
  that has an entry changes nothing: \<open>markOffline_twice\<close>, \<open>markOffline_one_entry\<close>,
  \<open>markOffline_failed_keeps_entry\<close>.)
\<close>

theorem markOffline_stale_error_entry:
  "fst (markOffline (reliable net_down) rain fresh) = ShowedError FetchRejected
   \<and> entries (caches (snd (markOffline (reliable net_down) rain fresh))) AUDIO_CACHE = []
   \<and> fst (markOffline (reliable (net_status 404)) rain
            (snd (markOffline (reliable net_down) rain fresh))) = ShowedError BadResponse
   \<and> entries (caches (snd (markOffline (reliable (net_status 404)) rain
                 (snd (markOffline (reliable net_down) rain fresh))))) AUDIO_CACHE
       = [(rain, \<lparr>rtype = Basic, status = 404, body = ''bytes of /audio/rain.mp3'', vary = []\<rparr>)]
   \<and> fst (isSessionCached (reliable net_down) rain
            (snd (markOffline (reliable (net_status 404)) rain
                   (snd (markOffline (reliable net_down) rain fresh))))) = True"
proof -
  have w1: "snd (markOffline (reliable net_down) rain fresh)
      = \<lparr>caches = [(''calmstart-audio-v1'', [])], fetched = [rain]\<rparr>"
    by (simp add: run_defs rain_def)
  have w2: "snd (markOffline (reliable (net_status 404)) rain
                  \<lparr>caches = [(''calmstart-audio-v1'', [])], fetched = [rain]\<rparr>)
      = \<lparr>caches = [(''calmstart-audio-v1'',
           [(rain, \<lparr>rtype = Basic, status = 404, body = ''bytes of /audio/rain.mp3'',
                     vary = []\<rparr>)])],
         fetched = [rain, rain]\<rparr>"
    by (simp add: run_defs rain_def)
  have 1: "fst (markOffline (reliable net_down) rain fresh) = ShowedError FetchRejected"
    by (simp add: run_defs rain_def)
  have 2: "fst (markOffline (reliable (net_status 404)) rain
                  \<lparr>caches = [(''calmstart-audio-v1'', [])], fetched = [rain]\<rparr>)
      = ShowedError BadResponse"
    by (simp add: run_defs rain_def)
  show ?thesis
    unfolding w1 w2 using 1 2 by (simp add: run_defs rain_def)
qed

section \<open>Installation\<close>

text \<open>
  C6. If one shell asset is not retrieved (its fetch rejects, or its response is not
  ok or not one the store takes), the install promise rejects. Whenever it rejects, every cache has the entries it
  had, and the worker that was active, if any, still is. When it resolves, the new
  worker is the active one and its shell cache has an entry for every shell asset: the
  ok response the network gave for it.
\<close>

theorem install_all_or_nothing:
  "((\<exists>a\<in>set SHELL_ASSETS. \<not> retrieved p (asset_request a)) \<longrightarrow>
       (\<exists>e. fst (install p w) = Inl e))
   \<and> ((\<exists>e. fst (install p w) = Inl e) \<longrightarrow>
       (\<forall>name. entries (caches (snd (install p w))) name = entries (caches w) name)
       \<and> update_worker p (act, w) = (act, snd (install p w)))
   \<and> (fst (install p w) = Inr () \<longrightarrow>
       fst (update_worker p (act, w)) = Some CACHE_NAME
       \<and> (\<forall>a\<in>set SHELL_ASSETS. \<exists>resp.
            cache_match (entries (caches (snd (update_worker p (act, w)))) CACHE_NAME)
              (asset_request a) = Some resp
            \<and> net p (asset_request a) = Inr resp \<and> ok resp))"
proof (intro conjI impI)
  assume "\<exists>a\<in>set SHELL_ASSETS. \<not> retrieved p (asset_request a)"
  then have "\<exists>e. fetch_all p (map asset_request SHELL_ASSETS) = Inl e"
    unfolding fetch_all_fails by auto
  then show "\<exists>e. fst (install p w) = Inl e"
    by (auto simp: install_cases)
next
  assume f: "\<exists>e. fst (install p w) = Inl e"
  then show "\<forall>name. entries (caches (snd (install p w))) name = entries (caches w) name"
    by (auto simp: install_cases split: if_splits sum.splits)
  from f show "update_worker p (act, w) = (act, snd (install p w))"
    by (cases "install p w") (auto simp: update_worker_def)
next
  assume s: "fst (install p w) = Inr ()"
  then show "fst (update_worker p (act, w)) = Some CACHE_NAME"
    by (cases "install p w") (auto simp: update_worker_def)
  from s obtain got where g: "fetch_all p (map asset_request SHELL_ASSETS) = Inr got"
    and i: "install p w = (Inr (), w\<lparr>caches := with_cache CACHE_NAME (put_all got)
                                   (caches_open CACHE_NAME (caches w)),
                        fetched := fetched w @ map asset_request SHELL_ASSETS\<rparr>)"
    by (auto simp: install_cases split: if_splits sum.splits)
  have e: "entries (caches (snd (update_worker p (act, w)))) CACHE_NAME
      = put_all got (entries (caches w) CACHE_NAME)"
    by (simp add: update_worker_def i entries_activate_shell)
  show "\<forall>a\<in>set SHELL_ASSETS. \<exists>resp.
            cache_match (entries (caches (snd (update_worker p (act, w)))) CACHE_NAME)
              (asset_request a) = Some resp
            \<and> net p (asset_request a) = Inr resp \<and> ok resp"
    unfolding e using put_all_present [OF g] by simp
qed

text \<open>
  With the style sheet out of reach, installing version 3 over the three caches fails,
  the version 3 cache keeps its one entry and version 2 stays the active worker. With
  every asset served, the install resolves, version 3 is active and the style sheet is
  in its cache.
\<close>

theorem install_all_or_nothing_witness:
  "''./styles.css'' \<in> set SHELL_ASSETS
   \<and> \<not> retrieved (reliable (net_except ''/styles.css'')) (asset_request ''./styles.css'')
   \<and> fst (install (reliable (net_except ''/styles.css'')) three_stores) = Inl FetchRejected
   \<and> entries (caches (snd (install (reliable (net_except ''/styles.css'')) three_stores))) CACHE_NAME
       = [(asset_request ''./app.js'', \<lparr>rtype = Basic, status = 200, body = ''new'', vary = []\<rparr>)]
   \<and> fst (update_worker (reliable (net_except ''/styles.css''))
            (Some ''calmstart-shell-v2'', three_stores)) = Some ''calmstart-shell-v2''
   \<and> fst (install (reliable (net_status 200)) fresh) = Inr ()
   \<and> fst (update_worker (reliable (net_status 200)) (None, fresh)) = Some CACHE_NAME
   \<and> cache_match
        (entries (caches (snd (update_worker (reliable (net_status 200)) (None, fresh)))) CACHE_NAME)
        (asset_request ''./styles.css'')
       = Some \<lparr>rtype = Basic, status = 200, body = ''bytes of /styles.css'', vary = []\<rparr>"
proof -
  have 1: "''./styles.css'' \<in> set SHELL_ASSETS"
    by (simp add: SHELL_ASSETS_def)
  have 2: "\<not> retrieved (reliable (net_except ''/styles.css'')) (asset_request ''./styles.css'')"
    by (simp add: install_defs reliable_def)
  have 3: "fst (install (reliable (net_except ''/styles.css'')) three_stores) = Inl FetchRejected"
    by (simp add: install_defs run_defs three_stores_def)
  have 4: "entries (caches three_stores) CACHE_NAME
       = [(asset_request ''./app.js'', \<lparr>rtype = Basic, status = 200, body = ''new'', vary = []\<rparr>)]"
    by (simp add: three_stores_def entries_def CACHE_NAME_def)
  have 5: "fst (install (reliable (net_status 200)) fresh) = Inr ()"
    by (simp add: install_defs run_defs)
  have 6: "net (reliable (net_status 200)) (asset_request ''./styles.css'')
       = Inr \<lparr>rtype = Basic, status = 200, body = ''bytes of /styles.css'', vary = []\<rparr>"
    by (simp add: install_defs run_defs)
  show ?thesis
    using install_all_or_nothing [of "reliable (net_except ''/styles.css'')" three_stores
        "Some ''calmstart-shell-v2''"]
      install_all_or_nothing [of "reliable (net_status 200)" fresh None]
      1 2 3 4 5 6
    by auto
qed

end
